theory Spec2Isabelle
  imports Main
begin

section \<open>JavaScript primitives used by search\_form.js\<close>

text \<open>
  Strings are lists of characters. A value that may be \<^verbatim>\<open>undefined\<close> is an
  option (\<open>None\<close> is \<^verbatim>\<open>undefined\<close>); a number is an \<open>int option\<close> whose \<open>None\<close>
  is \<^verbatim>\<open>NaN\<close>. Numbers are exact integers here. The script computes with doubles, and
  the two agree as long as every number involved has a magnitude of at most \<open>2^53\<close>:
  up to there \<^verbatim>\<open>parseInt\<close>, the addition of one and the printing of a number are exact.
  Beyond it the script's numbers round (\<open>2^53 + 1\<close> is \<open>2^53\<close>) and from \<open>10^21\<close> on
  they print with an exponent, which the exact integers do not follow. A statement about
  one append from an arbitrary id therefore bounds the number in the id; the row numbers
  of a page that started at 0 grow by one per append.
\<close>

type_synonym js_number = "int option"

text \<open>\<^verbatim>\<open>str.split(sep)\<close> for a one-character separator: never an empty array.\<close>

fun js_split :: "char \<Rightarrow> string \<Rightarrow> string list" where
  "js_split sep [] = [[]]"
| "js_split sep (c # cs) =
     (if c = sep then [] # js_split sep cs
      else (case js_split sep cs of [] \<Rightarrow> [[c]] | p # ps \<Rightarrow> (c # p) # ps))"

text \<open>\<^verbatim>\<open>arr[i]\<close>: \<^verbatim>\<open>undefined\<close> past the end.\<close>

definition js_index :: "'a list \<Rightarrow> nat \<Rightarrow> 'a option" where
  "js_index arr i = (if i < length arr then Some (arr ! i) else None)"

text \<open>String conversion of a value that is a string or \<^verbatim>\<open>undefined\<close>.\<close>

definition to_string :: "string option \<Rightarrow> string" where
  "to_string v = (case v of None \<Rightarrow> ''undefined'' | Some s \<Rightarrow> s)"

text \<open>White space that \<^verbatim>\<open>parseInt\<close> skips (the ASCII part: TAB, LF, VT, FF, CR, SP).\<close>

definition is_space :: "char \<Rightarrow> bool" where
  "is_space c = (of_char c \<in> {9::nat, 10, 11, 12, 13, 32})"

text \<open>The value of a character as a digit of some radix up to 36.\<close>

definition digit_val :: "char \<Rightarrow> nat option" where
  "digit_val c =
     (let n = (of_char c :: nat) in
      if 48 \<le> n \<and> n \<le> 57 then Some (n - 48)
      else if 97 \<le> n \<and> n \<le> 122 then Some (n - 87)
      else if 65 \<le> n \<and> n \<le> 90 then Some (n - 55)
      else None)"

definition is_digit_of :: "nat \<Rightarrow> char \<Rightarrow> bool" where
  "is_digit_of R c = (case digit_val c of None \<Rightarrow> False | Some v \<Rightarrow> v < R)"

definition digits_value :: "nat \<Rightarrow> string \<Rightarrow> nat" where
  "digits_value R Z =
     foldl (\<lambda>a c. case digit_val c of None \<Rightarrow> a | Some v \<Rightarrow> a * R + v) 0 Z"

text \<open>
  \<^verbatim>\<open>parseInt(string)\<close> with no radix: skip leading white space, read a sign, read a
  \<^verbatim>\<open>0x\<close> prefix as radix 16, take the longest run of digits; \<^verbatim>\<open>NaN\<close> when that
  run is empty.
\<close>

definition parseInt :: "string \<Rightarrow> js_number" where
  "parseInt inputString =
     (let S = dropWhile is_space inputString;
          sign = (if take 1 S = ''-'' then - 1 else (1::int));
          S1 = (if take 1 S = ''+'' \<or> take 1 S = ''-'' then drop 1 S else S);
          hex = (take 2 S1 = ''0x'' \<or> take 2 S1 = ''0X'');
          R = (if hex then 16 else 10);
          S2 = (if hex then drop 2 S1 else S1);
          Z = takeWhile (is_digit_of R) S2
      in if Z = [] then None else Some (sign * int (digits_value R Z)))"

text \<open>Decimal digits of a natural number, as \<^verbatim>\<open>String(n)\<close> prints them.\<close>

definition digit_char :: "nat \<Rightarrow> char" where
  "digit_char d = char_of (48 + d)"

fun dec :: "nat \<Rightarrow> string" where
  "dec n = (if n < 10 then [digit_char n] else dec (n div 10) @ [digit_char (n mod 10)])"

declare dec.simps [simp del]

definition number_string :: "js_number \<Rightarrow> string" where
  "number_string v =
     (case v of None \<Rightarrow> ''NaN''
      | Some i \<Rightarrow> if i < 0 then CHR ''-'' # dec (nat (- i)) else dec (nat i))"

text \<open>
  \<^verbatim>\<open>parseInt(from)+1\<close>: \<^verbatim>\<open>NaN + 1\<close> is \<^verbatim>\<open>NaN\<close>. The sum is the script's while
  it is at most \<open>2^53\<close> in magnitude (see above).
\<close>

definition js_plus1 :: "js_number \<Rightarrow> js_number" where
  "js_plus1 v = map_option (\<lambda>i. i + 1) v"

text \<open>
  \<^verbatim>\<open>str.replace(pat, rep)\<close> for a string pattern: the first occurrence only (an empty
  pattern matches at the start). The replacement strings of this program are printed
  numbers, which hold no \<^verbatim>\<open>$\<close>, so no replacement pattern is ever expanded.
\<close>

fun replace_first :: "string \<Rightarrow> string \<Rightarrow> string \<Rightarrow> string" where
  "replace_first pat rep [] = (if pat = [] then rep else [])"
| "replace_first pat rep (c # cs) =
     (if take (length pat) (c # cs) = pat then rep @ drop (length pat) (c # cs)
      else c # replace_first pat rep cs)"

text \<open>\<^verbatim>\<open>arr.join(sep)\<close>.\<close>

fun js_join :: "string \<Rightarrow> string list \<Rightarrow> string" where
  "js_join sep [] = []"
| "js_join sep [x] = x"
| "js_join sep (x # y # ys) = x @ sep @ js_join sep (y # ys)"

subsection \<open>jQuery.substitute\<close>

text \<open>
  \<^verbatim>\<open>str.replace(/\{(.+?)\}/g, function($0, $1) { return $1 in sub ? sub[$1] : $0; })\<close>.
  A match starts at an opening brace, takes at least one character other than a line
  terminator and ends at the first closing brace after that. The scanner below reads the
  string once: \<open>None\<close> is "outside a match", \<open>Some k\<close> is "after an opening brace, with
  \<open>k\<close> read so far". When a line terminator or the end of the string comes first, the
  match at that brace fails, and so does a match at any brace inside \<open>k\<close> (its closing
  brace would have closed the outer one), so the text read is emitted unchanged.
  The object \<open>sub\<close> is a map from its own keys; the patterns of this script name the
  keys \<^verbatim>\<open>param\<close> and \<^verbatim>\<open>keyword\<close> only, so no inherited property is ever looked up.
\<close>

definition line_terminator :: "char \<Rightarrow> bool" where
  "line_terminator c = (of_char c \<in> {10::nat, 13})"

fun subst_scan :: "(string \<rightharpoonup> string) \<Rightarrow> string option \<Rightarrow> string \<Rightarrow> string" where
  "subst_scan sub None [] = []"
| "subst_scan sub None (c # cs) =
     (if c = CHR ''{'' then subst_scan sub (Some []) cs else c # subst_scan sub None cs)"
| "subst_scan sub (Some k) [] = CHR ''{'' # k"
| "subst_scan sub (Some k) (c # cs) =
     (if c = CHR ''}'' \<and> k \<noteq> [] then
        (case sub k of Some v \<Rightarrow> v | None \<Rightarrow> CHR ''{'' # k @ ''}'') @ subst_scan sub None cs
      else if line_terminator c then CHR ''{'' # k @ c # subst_scan sub None cs
      else subst_scan sub (Some (k @ [c])) cs)"

definition substitute :: "string \<Rightarrow> (string \<rightharpoonup> string) \<Rightarrow> string" where
  "substitute str sub = subst_scan sub None str"

section \<open>The form as search\_form.js sees it\<close>

text \<open>
  A clause row is a \<^verbatim>\<open>div\<close> of class \<^verbatim>\<open>query_chunk\<close> or \<^verbatim>\<open>not_chunk\<close>. The script
  reads and writes its \<^verbatim>\<open>id\<close>, its class \<^verbatim>\<open>removable\<close>, and the \<^verbatim>\<open>name\<close>,
  \<^verbatim>\<open>id\<close> and value of its \<^verbatim>\<open>select\<close> child (the field) and its \<^verbatim>\<open>input\<close> child
  (the keyword). The markup itself is not part of the script: rows are taken to hold these
  two controls, each with a \<^verbatim>\<open>name\<close> and an \<^verbatim>\<open>id\<close> attribute.

  A select has two values: \<open>select_val\<close> is the option it shows now (what
  \<^verbatim>\<open>val()\<close> returns, and what the user changes), and \<open>select_default\<close> is the option
  its markup selects (the option with the \<^verbatim>\<open>selected\<close> attribute, or the first one). A
  copy of the element shows the default: the user's choice is state of the control, not
  part of the markup that is copied.
\<close>

record chunk =
  div_id :: string
  removable :: bool
  select_name :: string
  select_id :: string
  select_val :: string
  select_default :: string
  input_name :: string
  input_id :: string
  input_val :: string

text \<open>
  The document: the rows of each class in document order, the value of
  \<^verbatim>\<open>#id_operator\<close> and the value of the output field \<^verbatim>\<open>#id_q\<close>.
\<close>

record dom =
  query_chunks :: "chunk list"
  not_chunks :: "chunk list"
  id_operator :: string
  id_q :: string

datatype error = TypeError

subsection \<open>build\_query\<close>

text \<open>The object \<^verbatim>\<open>{param: select.val(), keyword: input.val()}\<close>.\<close>

definition chunk_obj :: "chunk \<Rightarrow> (string \<rightharpoonup> string)" where
  "chunk_obj c = [''param'' \<mapsto> select_val c, ''keyword'' \<mapsto> input_val c]"

text \<open>
  The \<^verbatim>\<open>each\<close> loop over the rows of one class: a row whose input is not empty pushes
  its substituted pattern onto the array.
\<close>

definition each_push :: "string \<Rightarrow> chunk list \<Rightarrow> string list" where
  "each_push pattern chunks =
     foldl (\<lambda>arr c. if input_val c \<noteq> [] then arr @ [substitute pattern (chunk_obj c)] else arr)
       [] chunks"

definition part_pattern :: string where
  "part_pattern = ''{param}:{keyword}''"

definition not_pattern :: string where
  "not_pattern = ''-{param}:{keyword}''"

definition operands :: "dom \<Rightarrow> string list" where
  "operands d = each_push part_pattern (query_chunks d)"

definition not_operands :: "dom \<Rightarrow> string list" where
  "not_operands d = each_push not_pattern (not_chunks d)"

text \<open>\<^verbatim>\<open>operands.join(' '+op_value+' ')\<close> and \<^verbatim>\<open>not_operands.join(' ')\<close>.\<close>

definition include_part :: "dom \<Rightarrow> string" where
  "include_part d = js_join ('' '' @ id_operator d @ '' '') (operands d)"

definition exclude_part :: "dom \<Rightarrow> string" where
  "exclude_part d = js_join '' '' (not_operands d)"

definition build_query :: "dom \<Rightarrow> dom" where
  "build_query d =
     (let query_string = [];
          query_string = query_string @ include_part d;
          query_string =
            (if length (not_operands d) > 0 then
               (if query_string \<noteq> [] then query_string @ '' '' else query_string)
                 @ exclude_part d
             else query_string)
      in d\<lparr>id_q := query_string\<rparr>)"

subsection \<open>increment\_ids\<close>

text \<open>
  The number of a row is read from the third \<^verbatim>\<open>_\<close>-separated part of its id, and the
  first occurrence of that text is replaced by the number plus one in the id of the row
  and in the name and id of each child. (The second argument one caller passes is not
  a parameter of the function.)
\<close>

definition increment_ids :: "chunk \<Rightarrow> chunk" where
  "increment_ids el =
     (let from = js_index (js_split CHR ''_'' (div_id el)) 2;
          to = js_plus1 (parseInt (to_string from));
          old_id = div_id el;
          bump = replace_first (to_string from) (number_string to)
      in el\<lparr>div_id := bump old_id,
            select_name := bump (select_name el), select_id := bump (select_id el),
            input_name := bump (input_name el), input_id := bump (input_id el)\<rparr>)"

subsection \<open>The click handlers\<close>

definition add_class_first :: "chunk list \<Rightarrow> chunk list" where
  "add_class_first chunks =
     (case chunks of [] \<Rightarrow> [] | c # rest \<Rightarrow> c\<lparr>removable := True\<rparr> # rest)"

definition remove_class_first :: "chunk list \<Rightarrow> chunk list" where
  "remove_class_first chunks =
     (case chunks of [] \<Rightarrow> [] | c # rest \<Rightarrow> c\<lparr>removable := False\<rparr> # rest)"

text \<open>
  \<^verbatim>\<open>clone(true)\<close> copies the row with its attributes (ids, names, classes), its
  handlers and the text of its input; it does not carry the option the user selected, so
  the select of the clone shows its default option.
\<close>

definition clone :: "chunk \<Rightarrow> chunk" where
  "clone el = el\<lparr>select_val := select_default el\<rparr>"

text \<open>
  The body shared by both add handlers: mark the first row removable, clone the last row,
  blank the clone's input (the script sets nothing else), insert the clone after the last
  row and increment the ids of what is now the last row. With no row at all the clone is
  an empty selection and \<^verbatim>\<open>increment_ids\<close> throws on \<^verbatim>\<open>undefined.split\<close>, the document
  untouched.
\<close>

definition add_part :: "chunk list \<Rightarrow> error + chunk list" where
  "add_part chunks =
     (let chunks1 = add_class_first chunks in
      case rev chunks1 of
        [] \<Rightarrow> Inl TypeError
      | l # _ \<Rightarrow>
          (let cloned = clone l;
               cloned = cloned\<lparr>input_val := []\<rparr>
           in Inr (chunks1 @ [increment_ids cloned])))"

definition add_query_part :: "dom \<Rightarrow> error + dom" where
  "add_query_part d =
     (case add_part (query_chunks d) of
        Inl e \<Rightarrow> Inl e
      | Inr chunks \<Rightarrow> Inr (d\<lparr>query_chunks := chunks\<rparr>))"

definition add_not_part :: "dom \<Rightarrow> error + dom" where
  "add_not_part d =
     (case add_part (not_chunks d) of
        Inl e \<Rightarrow> Inl e
      | Inr chunks \<Rightarrow> Inr (d\<lparr>not_chunks := chunks\<rparr>))"

text \<open>
  \<^verbatim>\<open>$('div#' + ident).remove()\<close>: every \<^verbatim>\<open>div\<close> of the document with that id goes,
  whatever its class. (The selector is read as a test on the id, which it is when the
  text after the underscore of the clicked anchor's id holds name characters only.)
\<close>

definition remove_div :: "string \<Rightarrow> dom \<Rightarrow> dom" where
  "remove_div ident d =
     d\<lparr>query_chunks := filter (\<lambda>c. div_id c \<noteq> ident) (query_chunks d),
       not_chunks := filter (\<lambda>c. div_id c \<noteq> ident) (not_chunks d)\<rparr>"

text \<open>
  The handler of \<^verbatim>\<open>a.remove_btn\<close>; \<open>this_id\<close> is the id of the clicked anchor.
\<close>

definition remove_btn_click :: "string \<Rightarrow> dom \<Rightarrow> dom" where
  "remove_btn_click this_id d =
     (let remove_index = js_index (js_split CHR ''_'' this_id) 1;
          d1 = remove_div (''query_chunk_'' @ to_string remove_index) d;
          d2 = (if length (query_chunks d1) = 1
                then d1\<lparr>query_chunks := remove_class_first (query_chunks d1)\<rparr> else d1)
      in build_query d2)"

text \<open>The handler of \<^verbatim>\<open>a.not_remove_btn\<close>: it does not call \<^verbatim>\<open>build_query\<close>.\<close>

definition not_remove_btn_click :: "string \<Rightarrow> dom \<Rightarrow> dom" where
  "not_remove_btn_click this_id d =
     (let remove_index = js_index (js_split CHR ''_'' this_id) 2;
          d1 = remove_div (''not_chunk_'' @ to_string remove_index) d;
          d2 = (if length (not_chunks d1) = 1
                then d1\<lparr>not_chunks := remove_class_first (not_chunks d1)\<rparr> else d1)
      in d2)"

subsection \<open>Edits\<close>

text \<open>
  \<^verbatim>\<open>init\<close> binds \<^verbatim>\<open>build_query\<close> to the change and keyup events of the input and to
  the change event of the select of row 0 of each class; \<^verbatim>\<open>clone(true)\<close> copies the
  handlers to every later row. So an edit of a control of row \<open>i\<close> (in document order) is
  the new value followed by \<^verbatim>\<open>build_query\<close>. No handler is bound to
  \<^verbatim>\<open>#id_operator\<close>: choosing another operator changes its value and nothing else.
\<close>

definition set_input :: "nat \<Rightarrow> string \<Rightarrow> chunk list \<Rightarrow> chunk list" where
  "set_input i v chunks =
     (if i < length chunks then chunks[i := (chunks ! i)\<lparr>input_val := v\<rparr>] else chunks)"

definition set_select :: "nat \<Rightarrow> string \<Rightarrow> chunk list \<Rightarrow> chunk list" where
  "set_select i v chunks =
     (if i < length chunks then chunks[i := (chunks ! i)\<lparr>select_val := v\<rparr>] else chunks)"

datatype event =
    Add_query
  | Add_not
  | Remove_query string
  | Remove_not string
  | Edit_query_value nat string
  | Edit_query_field nat string
  | Edit_not_value nat string
  | Edit_not_field nat string
  | Change_operator string

fun fire :: "event \<Rightarrow> dom \<Rightarrow> error + dom" where
  "fire Add_query d = add_query_part d"
| "fire Add_not d = add_not_part d"
| "fire (Remove_query this_id) d = Inr (remove_btn_click this_id d)"
| "fire (Remove_not this_id) d = Inr (not_remove_btn_click this_id d)"
| "fire (Edit_query_value i v) d =
     Inr (build_query (d\<lparr>query_chunks := set_input i v (query_chunks d)\<rparr>))"
| "fire (Edit_query_field i v) d =
     Inr (build_query (d\<lparr>query_chunks := set_select i v (query_chunks d)\<rparr>))"
| "fire (Edit_not_value i v) d =
     Inr (build_query (d\<lparr>not_chunks := set_input i v (not_chunks d)\<rparr>))"
| "fire (Edit_not_field i v) d =
     Inr (build_query (d\<lparr>not_chunks := set_select i v (not_chunks d)\<rparr>))"
| "fire (Change_operator v) d = Inr (d\<lparr>id_operator := v\<rparr>)"

section \<open>The host page\<close>

text \<open>
  Modelled from the spec: the style sheet and the markup of the page are not part of the
  script. The spec says that the remove trigger of a row is hidden when its collection has
  one row, and the script keeps the class \<^verbatim>\<open>removable\<close> for that purpose: a remove
  handler can run only while some row of its class is marked removable (there is a trigger
  to click). The id of the clicked anchor is left open, so every way the page may number
  its anchors is covered. A control can be edited when its row exists.
\<close>

fun enabled :: "event \<Rightarrow> dom \<Rightarrow> bool" where
  "enabled (Remove_query this_id) d = list_ex removable (query_chunks d)"
| "enabled (Remove_not this_id) d = list_ex removable (not_chunks d)"
| "enabled (Edit_query_value i v) d = (i < length (query_chunks d))"
| "enabled (Edit_query_field i v) d = (i < length (query_chunks d))"
| "enabled (Edit_not_value i v) d = (i < length (not_chunks d))"
| "enabled (Edit_not_field i v) d = (i < length (not_chunks d))"
| "enabled ev d = True"

text \<open>
  A sequence of events, each run to completion before the next: \<open>None\<close> when an event is
  not enabled in the state it meets, or when its handler throws.
\<close>

fun run :: "event list \<Rightarrow> dom \<Rightarrow> dom option" where
  "run [] d = Some d"
| "run (ev # evs) d =
     (if enabled ev d then
        (case fire ev d of Inl e \<Rightarrow> None | Inr d' \<Rightarrow> run evs d')
      else None)"

text \<open>
  Modelled from the spec: the page as loaded has one row of each class, numbered 0, not
  removable, with an empty keyword.
\<close>

definition initial :: "dom \<Rightarrow> bool" where
  "initial d =
     (map div_id (query_chunks d) = [''query_chunk_0''] \<and>
      map removable (query_chunks d) = [False] \<and>
      map input_val (query_chunks d) = [[]] \<and>
      map div_id (not_chunks d) = [''not_chunk_0''] \<and>
      map removable (not_chunks d) = [False] \<and>
      map input_val (not_chunks d) = [[]])"

subsection \<open>Row numbers\<close>

text \<open>The number of a row, read from its id the way \<^verbatim>\<open>increment_ids\<close> reads it.\<close>

definition chunk_index :: "chunk \<Rightarrow> js_number" where
  "chunk_index c = parseInt (to_string (js_index (js_split CHR ''_'' (div_id c)) 2))"

definition indices :: "chunk list \<Rightarrow> js_number list" where
  "indices chunks = map chunk_index chunks"

text \<open>The numbers are \<open>0, 1, ..., length - 1\<close> in document order.\<close>

definition dense :: "chunk list \<Rightarrow> bool" where
  "dense chunks = (indices chunks = map (\<lambda>i. Some (int i)) [0..<length chunks])"


text \<open>The ids of all rows of the document.\<close>

definition row_ids :: "dom \<Rightarrow> string list" where
  "row_ids d = map div_id (query_chunks d @ not_chunks d)"



text \<open>The events whose handler ends with \<^verbatim>\<open>build_query\<close>.\<close>

fun recompiles :: "event \<Rightarrow> bool" where
  "recompiles Add_query = False"
| "recompiles Add_not = False"
| "recompiles (Remove_not this_id) = False"
| "recompiles (Change_operator v) = False"
| "recompiles ev = True"

section \<open>The specification's compiler\<close>

text \<open>
  The query compiler in the words of the specification: keep the clauses with a keyword,
  format each, join; then put the two parts together.
\<close>

definition spec_join :: "string \<Rightarrow> string list \<Rightarrow> string" where
  "spec_join sep xs =
     (case xs of [] \<Rightarrow> [] | x # rest \<Rightarrow> x @ concat (map (\<lambda>y. sep @ y) rest))"

definition spec_include_part :: "dom \<Rightarrow> string" where
  "spec_include_part d =
     spec_join ('' '' @ id_operator d @ '' '')
       (map (\<lambda>c. select_val c @ '':'' @ input_val c)
          (filter (\<lambda>c. input_val c \<noteq> []) (query_chunks d)))"

definition spec_exclude_part :: "dom \<Rightarrow> string" where
  "spec_exclude_part d =
     spec_join '' ''
       (map (\<lambda>c. ''-'' @ select_val c @ '':'' @ input_val c)
          (filter (\<lambda>c. input_val c \<noteq> []) (not_chunks d)))"

definition spec_compiled :: "string \<Rightarrow> string \<Rightarrow> string" where
  "spec_compiled includePart excludePart =
     (if excludePart \<noteq> [] then
        (if includePart \<noteq> [] then includePart @ '' '' @ excludePart else excludePart)
      else includePart)"

section \<open>Well-kept pages\<close>

text \<open>
  What every page reached from the initial one satisfies. The rows of a class carry the
  ids \<open>pre @ dec n\<close> for the numbers \<open>n\<close> of a list \<open>ns\<close>; the numbers grow
  strictly; a lone row is not marked removable, and with two rows or more all are.
\<close>

definition numbered :: "string \<Rightarrow> nat list \<Rightarrow> chunk list \<Rightarrow> bool" where
  "numbered pre ns chunks = (map div_id chunks = map (\<lambda>n. pre @ dec n) ns)"

definition marks_ok :: "chunk list \<Rightarrow> bool" where
  "marks_ok chunks =
     (if length chunks = 1 then \<not> list_ex removable chunks else list_all removable chunks)"

definition tidy :: "string \<Rightarrow> chunk list \<Rightarrow> bool" where
  "tidy pre chunks =
     (chunks \<noteq> [] \<and> marks_ok chunks \<and> (\<exists>ns. numbered pre ns chunks \<and> sorted_wrt (<) ns))"

definition page_ok :: "dom \<Rightarrow> bool" where
  "page_ok d = (tidy ''query_chunk_'' (query_chunks d) \<and> tidy ''not_chunk_'' (not_chunks d))"


section \<open>Example pages\<close>

text \<open>
  A row as the page would render it: \<open>kind\<close> is \<^verbatim>\<open>query\<close> or \<^verbatim>\<open>not\<close>, \<open>n\<close> the printed
  number, \<open>field\<close> the option the markup selects (and the select shows). The ids of the
  controls are those \<^verbatim>\<open>init\<close> looks up.
\<close>

definition markup_row :: "string \<Rightarrow> string \<Rightarrow> bool \<Rightarrow> string \<Rightarrow> string \<Rightarrow> chunk" where
  "markup_row kind n r field keyword =
     \<lparr>div_id = kind @ ''_chunk_'' @ n, removable = r,
      select_name = kind @ ''-'' @ n @ ''-field'',
      select_id = ''id_'' @ kind @ ''-'' @ n @ ''-field'',
      select_val = field,
      select_default = field,
      input_name = kind @ ''-'' @ n @ ''-value'',
      input_id = ''id_'' @ kind @ ''-'' @ n @ ''-value'',
      input_val = keyword\<rparr>"

definition example_initial :: dom where
  "example_initial =
     \<lparr>query_chunks = [markup_row ''query'' ''0'' False ''title'' []],
      not_chunks = [markup_row ''not'' ''0'' False ''tag'' []],
      id_operator = ''AND'', id_q = []\<rparr>"

text \<open>The example of the specification: two include clauses and one exclusion.\<close>

definition example_cats :: dom where
  "example_cats =
     \<lparr>query_chunks = [markup_row ''query'' ''0'' True ''title'' ''cats'',
                      markup_row ''query'' ''1'' True ''author'' ''smith''],
      not_chunks = [markup_row ''not'' ''0'' False ''tag'' ''archived''],
      id_operator = ''AND'', id_q = ''title:cats AND author:smith -tag:archived''\<rparr>"

text \<open>
  The page a user builds from the initial one with the same clauses: the second include
  row is a clone of the first (default field \<^verbatim>\<open>title\<close>) whose field was then set to
  \<^verbatim>\<open>author\<close>. Last the operator was switched: the output field is not refreshed.
\<close>

definition example_switched :: dom where
  "example_switched =
     \<lparr>query_chunks = [markup_row ''query'' ''0'' True ''title'' ''cats'',
                      (markup_row ''query'' ''1'' True ''title'' ''smith'')
                        \<lparr>select_val := ''author''\<rparr>],
      not_chunks = [markup_row ''not'' ''0'' False ''tag'' ''archived''],
      id_operator = ''OR'', id_q = ''title:cats AND author:smith -tag:archived''\<rparr>"

text \<open>Two exclusions with keywords, the output field up to date.\<close>

definition example_two_nots :: dom where
  "example_two_nots =
     \<lparr>query_chunks = [markup_row ''query'' ''0'' False ''title'' []],
      not_chunks = [markup_row ''not'' ''0'' True ''tag'' ''archived'',
                    markup_row ''not'' ''1'' True ''tag'' ''spam''],
      id_operator = ''AND'', id_q = ''-tag:archived -tag:spam''\<rparr>"


text \<open>The page after two appends and the removal of the middle include row.\<close>

definition example_gap :: dom where
  "example_gap =
     \<lparr>query_chunks = [markup_row ''query'' ''0'' True ''title'' [],
                      markup_row ''query'' ''2'' True ''title'' []],
      not_chunks = [markup_row ''not'' ''0'' False ''tag'' []],
      id_operator = ''AND'', id_q = []\<rparr>"

section \<open>Properties\<close>

section \<open>The compiler\<close>

lemma substitute_part_pattern:
  "substitute part_pattern (chunk_obj c) = select_val c @ '':'' @ input_val c"
  by (simp add: substitute_def part_pattern_def chunk_obj_def line_terminator_def)

lemma substitute_not_pattern:
  "substitute not_pattern (chunk_obj c) = ''-'' @ select_val c @ '':'' @ input_val c"
  by (simp add: substitute_def not_pattern_def chunk_obj_def line_terminator_def)

lemma foldl_push:
  "foldl (\<lambda>arr c. if P c then arr @ [f c] else arr) acc cs = acc @ map f (filter P cs)"
  by (induction cs arbitrary: acc) simp_all

lemma each_push_map_filter:
  "each_push pattern chunks =
     map (\<lambda>c. substitute pattern (chunk_obj c)) (filter (\<lambda>c. input_val c \<noteq> []) chunks)"
  unfolding each_push_def by (simp add: foldl_push)

lemma js_join_spec_join: "js_join sep xs = spec_join sep xs"
  by (induction sep xs rule: js_join.induct) (simp_all add: spec_join_def)

lemma js_join_empty_iff:
  "list_all (\<lambda>x. x \<noteq> []) xs \<Longrightarrow> js_join sep xs = [] \<longleftrightarrow> xs = []"
  by (induction sep xs rule: js_join.induct) simp_all

lemma not_operands_nonempty: "list_all (\<lambda>x. x \<noteq> []) (not_operands d)"
  by (simp add: not_operands_def each_push_map_filter substitute_not_pattern list_all_iff)

lemma exclude_part_empty_iff: "exclude_part d = [] \<longleftrightarrow> not_operands d = []"
  unfolding exclude_part_def using js_join_empty_iff[OF not_operands_nonempty] by simp

lemma build_query_eq:
  "build_query d = d\<lparr>id_q := spec_compiled (include_part d) (exclude_part d)\<rparr>"
  by (simp add: build_query_def spec_compiled_def Let_def exclude_part_empty_iff)

lemma parts_id_q [simp]:
  "include_part (d\<lparr>id_q := q\<rparr>) = include_part d"
  "exclude_part (d\<lparr>id_q := q\<rparr>) = exclude_part d"
  by (simp_all add: include_part_def exclude_part_def operands_def not_operands_def)

lemma each_push_all_empty:
  "list_all (\<lambda>c. input_val c = []) chunks \<Longrightarrow> each_push pattern chunks = []"
  by (simp add: each_push_map_filter list_all_iff filter_empty_conv)

text \<open>
  C4. The include part that \<^verbatim>\<open>build_query\<close> computes (the loop over the
  \<^verbatim>\<open>query_chunk\<close> rows, the pattern substitution and the join) is the specification's:
  the include clauses with a non-empty keyword, each formatted \<open>field:keyword\<close>, joined
  by a space, the operator and a space; the empty string when no clause qualifies.
\<close>

theorem include_part_refines_spec: "include_part d = spec_include_part d"
  by (simp add: include_part_def spec_include_part_def operands_def each_push_map_filter
      substitute_part_pattern js_join_spec_join)

theorem include_part_refines_spec_witness:
  "include_part example_switched = ''title:cats OR author:smith'' \<and>
   include_part example_initial = []"
  using include_part_refines_spec [of example_switched]
    include_part_refines_spec [of example_initial]
  by (simp add: spec_include_part_def spec_join_def example_switched_def example_cats_def
      example_initial_def markup_row_def)

text \<open>
  C5. The exclude part that \<^verbatim>\<open>build_query\<close> computes is the specification's: the
  exclude clauses with a non-empty keyword, each formatted \<open>-field:keyword\<close>, joined by
  one space. Another operator changes neither the exclude part nor the operands of the
  include part: only the joiner between the include operands.
\<close>

theorem exclude_part_refines_spec:
  "exclude_part d = spec_exclude_part d \<and>
   exclude_part (d\<lparr>id_operator := op\<rparr>) = exclude_part d \<and>
   include_part (d\<lparr>id_operator := op\<rparr>) = js_join ('' '' @ op @ '' '') (operands d)"
  by (simp add: exclude_part_def spec_exclude_part_def not_operands_def include_part_def
      operands_def each_push_map_filter substitute_not_pattern js_join_spec_join)

theorem exclude_part_refines_spec_witness:
  "exclude_part example_cats = ''-tag:archived'' \<and>
   exclude_part (example_cats\<lparr>id_operator := ''OR''\<rparr>) = ''-tag:archived'' \<and>
   exclude_part example_two_nots = ''-tag:archived -tag:spam''"
  using exclude_part_refines_spec [of example_cats "''OR''"]
    exclude_part_refines_spec [of example_two_nots "''OR''"]
  by (simp add: spec_exclude_part_def spec_join_def example_cats_def example_two_nots_def
      markup_row_def)

text \<open>
  C6. \<^verbatim>\<open>build_query\<close> changes the output field only, and sets it to: the include part;
  then, when the exclude part is not empty, one space if the include part is not empty,
  and the exclude part. The old content of the field plays no part (it is overwritten).
\<close>

theorem build_query_output:
  "build_query d = d\<lparr>id_q := spec_compiled (include_part d) (exclude_part d)\<rparr> \<and>
   id_q (build_query (d\<lparr>id_q := old\<rparr>)) = id_q (build_query d)"
  by (simp add: build_query_eq)

theorem build_query_output_witness:
  "id_q (build_query example_cats) = ''title:cats AND author:smith -tag:archived'' \<and>
   id_q (build_query example_two_nots) = ''-tag:archived -tag:spam'' \<and>
   id_q (build_query (example_initial\<lparr>id_q := ''stale''\<rparr>)) = []"
proof -
  have "include_part example_cats = ''title:cats AND author:smith''"
    "exclude_part example_cats = ''-tag:archived''"
    "include_part example_two_nots = []"
    "exclude_part example_two_nots = ''-tag:archived -tag:spam''"
    "include_part example_initial = []"
    "exclude_part example_initial = []"
    by (simp_all add: include_part_def exclude_part_def operands_def not_operands_def
        each_push_map_filter substitute_part_pattern substitute_not_pattern
        example_cats_def example_two_nots_def example_initial_def markup_row_def)
  then show ?thesis
    using build_query_output [of example_cats "[]"]
      build_query_output [of example_two_nots "[]"]
      build_query_output [of example_initial "''stale''"]
    by (simp add: spec_compiled_def)
qed

text \<open>
  C9. \<^verbatim>\<open>build_query\<close> has no failing branch: for every document it returns the document
  with a new output field, whatever the fields, keywords and operator; and when every
  keyword of both collections is empty, the output is the empty string.
\<close>

theorem build_query_total:
  "(\<exists>q. build_query d = d\<lparr>id_q := q\<rparr>) \<and>
   (list_all (\<lambda>c. input_val c = []) (query_chunks d) \<and>
    list_all (\<lambda>c. input_val c = []) (not_chunks d) \<longrightarrow>
    build_query d = d\<lparr>id_q := []\<rparr>)"
proof
  show "\<exists>q. build_query d = d\<lparr>id_q := q\<rparr>"
    using build_query_eq by blast
  show "list_all (\<lambda>c. input_val c = []) (query_chunks d) \<and>
    list_all (\<lambda>c. input_val c = []) (not_chunks d) \<longrightarrow>
    build_query d = d\<lparr>id_q := []\<rparr>"
    by (simp add: build_query_eq spec_compiled_def include_part_def exclude_part_def
        operands_def not_operands_def each_push_all_empty)
qed

theorem build_query_total_witness:
  "list_all (\<lambda>c. input_val c = []) (query_chunks example_initial) \<and>
   list_all (\<lambda>c. input_val c = []) (not_chunks example_initial) \<and>
   build_query example_initial = example_initial\<lparr>id_q := []\<rparr>"
proof -
  have h: "list_all (\<lambda>c. input_val c = []) (query_chunks example_initial) \<and>
    list_all (\<lambda>c. input_val c = []) (not_chunks example_initial)"
    by (simp add: example_initial_def markup_row_def)
  with build_query_total [of example_initial] show ?thesis by blast
qed

section \<open>Appending a row\<close>

lemma increment_ids_vals [simp]:
  "input_val (increment_ids el) = input_val el"
  "select_val (increment_ids el) = select_val el"
  "select_default (increment_ids el) = select_default el"
  "removable (increment_ids el) = removable el"
  by (simp_all add: increment_ids_def Let_def)

lemma clone_frame [simp]:
  "div_id (clone el) = div_id el"
  "removable (clone el) = removable el"
  "input_val (clone el) = input_val el"
  "select_default (clone el) = select_default el"
  "select_val (clone el) = select_default el"
  by (simp_all add: clone_def)

lemma each_push_add_class_first:
  "each_push pattern (add_class_first chunks) = each_push pattern chunks"
  by (cases chunks) (simp_all add: add_class_first_def each_push_map_filter chunk_obj_def)

lemma add_part_Inr:
  "add_part chunks = Inr chunks' \<longleftrightarrow>
   chunks \<noteq> [] \<and>
   chunks' = add_class_first chunks @
     [increment_ids ((clone (last (add_class_first chunks)))\<lparr>input_val := []\<rparr>)]"
proof (cases "add_class_first chunks" rule: rev_cases)
  case Nil
  then show ?thesis
    by (cases chunks) (auto simp: add_part_def add_class_first_def)
next
  case (snoc ys y)
  then have "chunks \<noteq> []" by (auto simp: add_class_first_def)
  with snoc show ?thesis by (auto simp: add_part_def Let_def)
qed

lemma each_push_add_part:
  "add_part chunks = Inr chunks' \<Longrightarrow> each_push pattern chunks' = each_push pattern chunks"
  using each_push_add_class_first [of pattern chunks]
  by (auto simp: add_part_Inr each_push_map_filter)

text \<open>
  C10. An append on either collection leaves the output field as it was (the add handlers
  never call \<^verbatim>\<open>build_query\<close>), and a recompilation would give the same text before and
  after the append, the new row having an empty keyword.
\<close>

theorem add_leaves_output:
  "ev = Add_query \<or> ev = Add_not \<Longrightarrow> fire ev d = Inr d' \<Longrightarrow>
   id_q d' = id_q d \<and> id_q (build_query d') = id_q (build_query d)"
  by (auto simp: add_query_part_def add_not_part_def build_query_eq include_part_def
      exclude_part_def operands_def not_operands_def each_push_add_part
      split: sum.splits)

theorem add_leaves_output_witness:
  "fire Add_query example_cats =
     Inr (example_cats\<lparr>query_chunks :=
       query_chunks example_cats @ [markup_row ''query'' ''2'' True ''author'' []]\<rparr>) \<and>
   id_q (build_query (example_cats\<lparr>query_chunks :=
       query_chunks example_cats @ [markup_row ''query'' ''2'' True ''author'' []]\<rparr>)) =
     id_q (build_query example_cats)"
proof -
  have f: "fire Add_query example_cats =
     Inr (example_cats\<lparr>query_chunks :=
       query_chunks example_cats @ [markup_row ''query'' ''2'' True ''author'' []]\<rparr>)"
    by code_simp
  from add_leaves_output [OF _ f] show ?thesis using f by simp
qed

section \<open>Printed numbers and row ids\<close>

lemma of_char_digit_char: "d < 10 \<Longrightarrow> (of_char (digit_char d) :: nat) = 48 + d"
  by (simp add: digit_char_def)

lemma digit_val_digit_char: "d < 10 \<Longrightarrow> digit_val (digit_char d) = Some d"
  by (simp add: digit_val_def of_char_digit_char)

lemma dec_nonempty: "dec n \<noteq> []"
  by (subst dec.simps) simp

lemma dec_digits: "c \<in> set (dec n) \<Longrightarrow> \<exists>d < 10. c = digit_char d"
proof (induction n rule: dec.induct)
  case (1 n)
  show ?case
  proof (cases "n < 10")
    case True
    with "1.prems" show ?thesis by (subst (asm) dec.simps) auto
  next
    case False
    with "1.prems" have "c \<in> set (dec (n div 10)) \<or> c = digit_char (n mod 10)"
      by (subst (asm) dec.simps) auto
    then show ?thesis
    proof
      assume "c \<in> set (dec (n div 10))"
      with False "1.IH" show ?thesis by blast
    next
      assume "c = digit_char (n mod 10)"
      moreover have "n mod 10 < 10" by simp
      ultimately show ?thesis by blast
    qed
  qed
qed

lemma digits_value_snoc:
  "digits_value R (Z @ [c]) =
     (case digit_val c of None \<Rightarrow> digits_value R Z | Some v \<Rightarrow> digits_value R Z * R + v)"
  by (simp add: digits_value_def split: option.split)

lemma digits_value_dec: "digits_value 10 (dec n) = n"
proof (induction n rule: dec.induct)
  case (1 n)
  show ?case
  proof (cases "n < 10")
    case True
    then show ?thesis
      by (subst dec.simps) (simp add: digits_value_def digit_val_digit_char)
  next
    case False
    with "1.IH" have "digits_value 10 (dec (n div 10)) = n div 10" by simp
    with False show ?thesis
      by (subst dec.simps) (simp add: digits_value_snoc digit_val_digit_char)
  qed
qed

lemma dec_inject: "dec m = dec n \<Longrightarrow> m = n"
  by (metis digits_value_dec)

lemma dec_is_digit: "c \<in> set (dec n) \<Longrightarrow> is_digit_of 10 c"
  using dec_digits [of c n] by (auto simp: is_digit_of_def digit_val_digit_char)

lemma dec_of_char: "c \<in> set (dec n) \<Longrightarrow> 48 \<le> (of_char c :: nat) \<and> (of_char c :: nat) \<le> 57"
  using dec_digits [of c n] by (auto simp: of_char_digit_char)

lemma dec_not_special:
  "CHR ''_'' \<notin> set (dec n)" "CHR ''-'' \<notin> set (dec n)" "CHR ''+'' \<notin> set (dec n)"
  "CHR ''x'' \<notin> set (dec n)" "CHR ''X'' \<notin> set (dec n)"
  using dec_of_char [of _ n] by fastforce+

lemma hd_dec_in: "hd (dec n) \<in> set (dec n)"
  by (simp add: dec_nonempty)

lemma dec_not_space: "c \<in> set (dec n) \<Longrightarrow> \<not> is_space c"
  using dec_of_char [of c n] by (auto simp: is_space_def)

lemma dropWhile_head: "xs \<noteq> [] \<Longrightarrow> \<not> P (hd xs) \<Longrightarrow> dropWhile P xs = xs"
  by (cases xs) simp_all

lemma take1_eq: "take 1 xs = [a] \<Longrightarrow> a \<in> set xs"
  by (cases xs) auto

lemma take2_eq: "take 2 xs = [a, b] \<Longrightarrow> b \<in> set xs"
  by (cases xs; cases "tl xs") (auto simp: take_Suc_conv_app_nth numeral_2_eq_2)

lemma parseInt_dec: "parseInt (dec n) = Some (int n)"
proof -
  have "\<not> is_space (hd (dec n))"
    using dec_not_space [OF hd_dec_in] .
  then have S: "dropWhile is_space (dec n) = dec n"
    using dropWhile_head [OF dec_nonempty] by blast
  have sign: "take 1 (dec n) \<noteq> ''-''" "take 1 (dec n) \<noteq> ''+''"
    using take1_eq dec_not_special by metis+
  have hex: "take 2 (dec n) \<noteq> ''0x''" "take 2 (dec n) \<noteq> ''0X''"
    using take2_eq dec_not_special by metis+
  have Z: "takeWhile (is_digit_of 10) (dec n) = dec n"
    using dec_is_digit by (simp add: takeWhile_eq_all_conv)
  show ?thesis
    unfolding parseInt_def Let_def S using sign hex
    by (simp add: Z dec_nonempty digits_value_dec)
qed

lemma js_split_no_sep: "sep \<notin> set s \<Longrightarrow> js_split sep s = [s]"
  by (induction s) auto

lemma js_split_query_chunk:
  "CHR ''_'' \<notin> set s \<Longrightarrow> js_split CHR ''_'' (''query_chunk_'' @ s) = [''query'', ''chunk'', s]"
  by (simp add: js_split_no_sep)

lemma js_split_not_chunk:
  "CHR ''_'' \<notin> set s \<Longrightarrow> js_split CHR ''_'' (''not_chunk_'' @ s) = [''not'', ''chunk'', s]"
  by (simp add: js_split_no_sep)

lemma third_part:
  assumes "pre = ''query_chunk_'' \<or> pre = ''not_chunk_''"
  shows "to_string (js_index (js_split CHR ''_'' (pre @ dec n)) 2) = dec n"
  using assms dec_not_special(1) [of n]
  by (auto simp: js_split_no_sep js_index_def to_string_def)

lemma chunk_index_dec:
  "pre = ''query_chunk_'' \<or> pre = ''not_chunk_'' \<Longrightarrow> div_id c = pre @ dec n \<Longrightarrow>
   chunk_index c = Some (int n)"
  by (simp add: chunk_index_def third_part parseInt_dec)

lemma replace_first_suffix:
  "pat \<noteq> [] \<Longrightarrow> hd pat \<notin> set pre \<Longrightarrow> replace_first pat rep (pre @ pat) = pre @ rep"
proof (induction pre)
  case Nil
  then show ?case by (cases pat) simp_all
next
  case (Cons a pre)
  then have "take (length pat) (a # pre @ pat) \<noteq> pat"
    by (cases pat) auto
  with Cons show ?case by simp
qed

lemma prefix_no_digit:
  assumes "pre = ''query_chunk_'' \<or> pre = ''not_chunk_''"
  shows "hd (dec n) \<notin> set pre"
  using assms dec_of_char [OF hd_dec_in, of n] by auto

lemma number_string_plus1: "number_string (js_plus1 (Some (int n))) = dec (Suc n)"
proof -
  have "nat (int n + 1) = Suc n" by simp
  then show ?thesis by (simp add: number_string_def js_plus1_def)
qed

lemma div_id_increment_ids:
  assumes pre: "pre = ''query_chunk_'' \<or> pre = ''not_chunk_''"
    and id: "div_id el = pre @ dec n"
  shows "div_id (increment_ids el) = pre @ dec (Suc n)"
  using replace_first_suffix [OF dec_nonempty prefix_no_digit [OF pre], of n "dec (Suc n)"]
  by (simp add: increment_ids_def Let_def id third_part [OF pre] parseInt_dec
      number_string_plus1)

section \<open>One step keeps a page well-kept\<close>

lemma numbered_length: "numbered pre ns chunks \<Longrightarrow> length ns = length chunks"
  unfolding numbered_def by (metis length_map)

lemma add_class_first_ids [simp]:
  "map div_id (add_class_first chunks) = map div_id chunks"
  "length (add_class_first chunks) = length chunks"
  "add_class_first chunks = [] \<longleftrightarrow> chunks = []"
  by (cases chunks; simp add: add_class_first_def)+

lemma remove_class_first_ids [simp]:
  "map div_id (remove_class_first chunks) = map div_id chunks"
  "length (remove_class_first chunks) = length chunks"
  by (cases chunks; simp add: remove_class_first_def)+

lemma numbered_last:
  assumes "numbered pre ns chunks" "chunks \<noteq> []"
  shows "div_id (last chunks) = pre @ dec (last ns)"
proof -
  have "ns \<noteq> []" using assms numbered_length by fastforce
  have "div_id (last chunks) = last (map div_id chunks)"
    using assms(2) by (simp add: last_map)
  also have "\<dots> = last (map (\<lambda>n. pre @ dec n) ns)"
    using assms(1) by (simp add: numbered_def)
  also have "\<dots> = pre @ dec (last ns)"
    using \<open>ns \<noteq> []\<close> by (simp add: last_map)
  finally show ?thesis .
qed

lemma div_id_last_add_class_first:
  "chunks \<noteq> [] \<Longrightarrow> div_id (last (add_class_first chunks)) = div_id (last chunks)"
  by (metis add_class_first_ids(1,3) last_map)

lemma add_part_numbered:
  assumes pre: "pre = ''query_chunk_'' \<or> pre = ''not_chunk_''"
    and num: "numbered pre ns chunks"
    and add: "add_part chunks = Inr chunks'"
  shows "numbered pre (ns @ [Suc (last ns)]) chunks'"
proof -
  from add have ne: "chunks \<noteq> []"
    and eq: "chunks' = add_class_first chunks @
      [increment_ids ((clone (last (add_class_first chunks)))\<lparr>input_val := []\<rparr>)]"
    by (simp_all add: add_part_Inr)
  have "div_id ((clone (last (add_class_first chunks)))\<lparr>input_val := []\<rparr>) = pre @ dec (last ns)"
    using numbered_last [OF num ne] div_id_last_add_class_first [OF ne] by simp
  then have "div_id (increment_ids ((clone (last (add_class_first chunks)))\<lparr>input_val := []\<rparr>))
      = pre @ dec (Suc (last ns))"
    by (rule div_id_increment_ids [OF pre])
  then show ?thesis
    using num by (simp add: numbered_def eq)
qed

lemma sorted_snoc_Suc_last:
  assumes "sorted_wrt (<) ns"
  shows "sorted_wrt (<) (ns @ [Suc (last ns)])"
proof (cases ns rule: rev_cases)
  case Nil
  then show ?thesis by simp
next
  case (snoc ms m)
  with assms show ?thesis
    by (auto simp: sorted_wrt_append less_Suc_eq)
qed

lemma add_part_marks:
  assumes "marks_ok chunks" "add_part chunks = Inr chunks'"
  shows "marks_ok chunks'"
proof -
  from assms(2) obtain c rest where cs: "chunks = c # rest"
    by (cases chunks) (auto simp: add_part_Inr)
  have all: "list_all removable (add_class_first chunks)"
    using assms(1) cs by (cases rest) (auto simp: marks_ok_def add_class_first_def)
  have "add_class_first chunks \<noteq> []" using cs by simp
  then have "removable (last (add_class_first chunks))"
    using all by (simp add: list_all_iff)
  with all cs assms(2) show ?thesis
    by (auto simp: add_part_Inr marks_ok_def)
qed

lemma add_part_tidy:
  assumes "pre = ''query_chunk_'' \<or> pre = ''not_chunk_''" "tidy pre chunks"
    "add_part chunks = Inr chunks'"
  shows "tidy pre chunks'"
proof -
  from assms(2) obtain ns where ns: "numbered pre ns chunks" "sorted_wrt (<) ns"
    by (auto simp: tidy_def)
  have "chunks' \<noteq> []" using assms(3) by (auto simp: add_part_Inr)
  moreover have "marks_ok chunks'"
    using assms(2,3) add_part_marks by (auto simp: tidy_def)
  moreover have "numbered pre (ns @ [Suc (last ns)]) chunks'"
    using add_part_numbered [OF assms(1) ns(1) assms(3)] .
  moreover have "sorted_wrt (<) (ns @ [Suc (last ns)])"
    using ns(2) by (rule sorted_snoc_Suc_last)
  ultimately show ?thesis unfolding tidy_def by blast
qed

subsection \<open>Removal\<close>

lemma numbered_filter:
  assumes "numbered pre ns chunks"
  shows "numbered pre (filter (\<lambda>n. pre @ dec n \<noteq> x) ns) (filter (\<lambda>c. div_id c \<noteq> x) chunks)"
proof -
  have "map div_id (filter (\<lambda>c. div_id c \<noteq> x) chunks) = filter (\<lambda>s. s \<noteq> x) (map div_id chunks)"
    by (simp add: filter_map o_def)
  also have "\<dots> = filter (\<lambda>s. s \<noteq> x) (map (\<lambda>n. pre @ dec n) ns)"
    using assms by (simp add: numbered_def)
  also have "\<dots> = map (\<lambda>n. pre @ dec n) (filter (\<lambda>n. pre @ dec n \<noteq> x) ns)"
    by (simp add: filter_map o_def)
  finally show ?thesis by (simp add: numbered_def)
qed

lemma filter_one_out:
  assumes "distinct ns"
  shows "length ns - 1 \<le> length (filter (\<lambda>n. pre @ dec n \<noteq> x) ns)"
proof (cases "\<exists>k \<in> set ns. pre @ dec k = x")
  case False
  then have "filter (\<lambda>n. pre @ dec n \<noteq> x) ns = ns"
    by (simp add: filter_id_conv)
  then show ?thesis by simp
next
  case True
  then obtain k where k: "k \<in> set ns" "pre @ dec k = x" by blast
  have "(\<lambda>n. pre @ dec n \<noteq> x) = (\<lambda>n. n \<noteq> k)"
    using k(2) dec_inject by auto
  then have "filter (\<lambda>n. pre @ dec n \<noteq> x) ns = removeAll k ns"
    by (simp add: removeAll_filter_not_eq) metis
  also have "\<dots> = remove1 k ns"
    using assms by (simp add: distinct_remove1_removeAll)
  finally show ?thesis
    using k(1) by (simp add: length_remove1)
qed

lemma filter_other_class:
  assumes "numbered pre ns chunks"
    and "pre = ''query_chunk_'' \<and> other = ''not_chunk_'' \<or>
         pre = ''not_chunk_'' \<and> other = ''query_chunk_''"
  shows "filter (\<lambda>c. div_id c \<noteq> other @ r) chunks = chunks"
proof -
  have "div_id c \<noteq> other @ r" if "c \<in> set chunks" for c
  proof -
    from that have "div_id c \<in> set (map (\<lambda>n. pre @ dec n) ns)"
      using assms(1) unfolding numbered_def by (metis imageI set_map)
    then obtain n where "div_id c = pre @ dec n" by auto
    moreover have "''query_chunk_'' @ dec n \<noteq> ''not_chunk_'' @ r"
      "''not_chunk_'' @ dec n \<noteq> ''query_chunk_'' @ r"
      by simp_all
    ultimately show ?thesis using assms(2) by metis
  qed
  then show ?thesis by (simp add: filter_id_conv)
qed

lemma removal_tidy:
  fixes x :: string
  assumes tidy: "tidy pre chunks" and ex: "list_ex removable chunks"
  defines "chunks1 \<equiv> filter (\<lambda>c. div_id c \<noteq> x) chunks"
  shows "tidy pre (if length chunks1 = 1 then remove_class_first chunks1 else chunks1)"
proof -
  from tidy obtain ns where ns: "numbered pre ns chunks" "sorted_wrt (<) ns"
    and ne: "chunks \<noteq> []" and marks: "marks_ok chunks"
    by (auto simp: tidy_def)
  have "length chunks \<noteq> 1"
    using marks ex by (auto simp: marks_ok_def)
  then have all: "list_all removable chunks"
    using marks by (simp add: marks_ok_def)
  have two: "2 \<le> length chunks"
    using \<open>length chunks \<noteq> 1\<close> ne by (cases chunks) (auto simp: Suc_le_eq)
  let ?ms = "filter (\<lambda>n. pre @ dec n \<noteq> x) ns"
  have num1: "numbered pre ?ms chunks1"
    unfolding chunks1_def using ns(1) by (rule numbered_filter)
  have sorted1: "sorted_wrt (<) ?ms"
    using ns(2) by (rule sorted_wrt_filter)
  have "distinct ns" using ns(2) by (simp add: strict_sorted_iff)
  then have "length ns - 1 \<le> length ?ms" by (rule filter_one_out)
  then have len1: "1 \<le> length chunks1"
    using two numbered_length [OF ns(1)] numbered_length [OF num1] by simp
  have all1: "list_all removable chunks1"
    using all by (simp add: chunks1_def list_all_iff)
  show ?thesis
  proof (cases "length chunks1 = 1")
    case True
    then obtain c where c: "chunks1 = [c]"
      by (cases chunks1) auto
    have "marks_ok (remove_class_first chunks1)"
      by (simp add: c remove_class_first_def marks_ok_def)
    moreover have "numbered pre ?ms (remove_class_first chunks1)"
      using num1 by (simp add: numbered_def)
    moreover have "remove_class_first chunks1 \<noteq> []"
      by (simp add: c remove_class_first_def)
    ultimately show ?thesis using True sorted1 unfolding tidy_def by auto
  next
    case False
    then have "marks_ok chunks1 \<and> chunks1 \<noteq> []"
      using all1 len1 by (auto simp: marks_ok_def)
    then show ?thesis using False num1 sorted1 unfolding tidy_def by auto
  qed
qed

lemma build_query_chunks [simp]:
  "query_chunks (build_query d) = query_chunks d"
  "not_chunks (build_query d) = not_chunks d"
  "id_operator (build_query d) = id_operator d"
  by (simp_all add: build_query_eq)

lemma tidy_numbered: "tidy pre chunks \<Longrightarrow> \<exists>ns. numbered pre ns chunks"
  by (auto simp: tidy_def)

lemma remove_btn_click_ok:
  assumes "page_ok d" "list_ex removable (query_chunks d)"
  shows "page_ok (remove_btn_click this_id d)"
proof -
  let ?x = "''query_chunk_'' @ to_string (js_index (js_split CHR ''_'' this_id) 1)"
  from assms(1) obtain ns where "numbered ''not_chunk_'' ns (not_chunks d)"
    using tidy_numbered by (auto simp: page_ok_def)
  then have "filter (\<lambda>c. div_id c \<noteq> ?x) (not_chunks d) = not_chunks d"
    using filter_other_class [of "''not_chunk_''" ns "not_chunks d" "''query_chunk_''"] by simp
  moreover have "tidy ''query_chunk_''
      (if length (filter (\<lambda>c. div_id c \<noteq> ?x) (query_chunks d)) = 1
       then remove_class_first (filter (\<lambda>c. div_id c \<noteq> ?x) (query_chunks d))
       else filter (\<lambda>c. div_id c \<noteq> ?x) (query_chunks d))"
    using assms removal_tidy [of "''query_chunk_''" "query_chunks d" ?x]
    by (simp add: page_ok_def)
  moreover have "query_chunks (remove_btn_click this_id d) =
      (if length (filter (\<lambda>c. div_id c \<noteq> ?x) (query_chunks d)) = 1
       then remove_class_first (filter (\<lambda>c. div_id c \<noteq> ?x) (query_chunks d))
       else filter (\<lambda>c. div_id c \<noteq> ?x) (query_chunks d))"
    "not_chunks (remove_btn_click this_id d) = filter (\<lambda>c. div_id c \<noteq> ?x) (not_chunks d)"
    by (simp_all add: remove_btn_click_def remove_div_def Let_def)
  ultimately show ?thesis
    using assms(1) by (simp add: page_ok_def)
qed

lemma not_remove_btn_click_ok:
  assumes "page_ok d" "list_ex removable (not_chunks d)"
  shows "page_ok (not_remove_btn_click this_id d)"
proof -
  let ?x = "''not_chunk_'' @ to_string (js_index (js_split CHR ''_'' this_id) 2)"
  from assms(1) obtain ns where "numbered ''query_chunk_'' ns (query_chunks d)"
    using tidy_numbered by (auto simp: page_ok_def)
  then have "filter (\<lambda>c. div_id c \<noteq> ?x) (query_chunks d) = query_chunks d"
    using filter_other_class [of "''query_chunk_''" ns "query_chunks d" "''not_chunk_''"] by simp
  moreover have "tidy ''not_chunk_''
      (if length (filter (\<lambda>c. div_id c \<noteq> ?x) (not_chunks d)) = 1
       then remove_class_first (filter (\<lambda>c. div_id c \<noteq> ?x) (not_chunks d))
       else filter (\<lambda>c. div_id c \<noteq> ?x) (not_chunks d))"
    using assms removal_tidy [of "''not_chunk_''" "not_chunks d" ?x]
    by (simp add: page_ok_def)
  moreover have "not_chunks (not_remove_btn_click this_id d) =
      (if length (filter (\<lambda>c. div_id c \<noteq> ?x) (not_chunks d)) = 1
       then remove_class_first (filter (\<lambda>c. div_id c \<noteq> ?x) (not_chunks d))
       else filter (\<lambda>c. div_id c \<noteq> ?x) (not_chunks d))"
    "query_chunks (not_remove_btn_click this_id d) = filter (\<lambda>c. div_id c \<noteq> ?x) (query_chunks d)"
    by (simp_all add: not_remove_btn_click_def remove_div_def Let_def)
  ultimately show ?thesis
    using assms(1) by (simp add: page_ok_def)
qed

subsection \<open>Edits\<close>

lemma set_input_frame [simp]:
  "map div_id (set_input i v chunks) = map div_id chunks"
  "map removable (set_input i v chunks) = map removable chunks"
  "length (set_input i v chunks) = length chunks"
  by (simp_all add: set_input_def map_update list_update_same_conv)

lemma set_select_frame [simp]:
  "map div_id (set_select i v chunks) = map div_id chunks"
  "map removable (set_select i v chunks) = map removable chunks"
  "length (set_select i v chunks) = length chunks"
  by (simp_all add: set_select_def map_update list_update_same_conv)

lemma tidy_cong:
  assumes "map div_id chunks' = map div_id chunks" "map removable chunks' = map removable chunks"
    and "tidy pre chunks"
  shows "tidy pre chunks'"
proof -
  have len: "length chunks' = length chunks"
    using assms(1) by (rule map_eq_imp_length_eq)
  have "list_all removable cs = list_all (\<lambda>b. b) (map removable cs)"
    "list_ex removable cs = list_ex (\<lambda>b. b) (map removable cs)" for cs :: "chunk list"
    by (simp_all add: list_all_iff list_ex_iff)
  then have "list_all removable chunks' = list_all removable chunks"
    "list_ex removable chunks' = list_ex removable chunks"
    using assms(2) by simp_all
  then have "marks_ok chunks' = marks_ok chunks"
    using len by (simp add: marks_ok_def)
  moreover have "chunks' \<noteq> []" using len assms(3) by (auto simp: tidy_def)
  ultimately show ?thesis
    using assms(1,3) by (auto simp: tidy_def numbered_def)
qed

lemma fire_ok:
  assumes "page_ok d" "enabled ev d" "fire ev d = Inr d'"
  shows "page_ok d'"
proof (cases ev)
  case Add_query
  with assms show ?thesis
    using add_part_tidy [of "''query_chunk_''" "query_chunks d"]
    by (auto simp: page_ok_def add_query_part_def split: sum.splits)
next
  case Add_not
  with assms show ?thesis
    using add_part_tidy [of "''not_chunk_''" "not_chunks d"]
    by (auto simp: page_ok_def add_not_part_def split: sum.splits)
next
  case (Remove_query x)
  with assms show ?thesis using remove_btn_click_ok by auto
next
  case (Remove_not x)
  with assms show ?thesis using not_remove_btn_click_ok by auto
next
  case (Edit_query_value i v)
  with assms show ?thesis
    using tidy_cong [OF set_input_frame(1,2)] by (auto simp: page_ok_def)
next
  case (Edit_query_field i v)
  with assms show ?thesis
    using tidy_cong [OF set_select_frame(1,2)] by (auto simp: page_ok_def)
next
  case (Edit_not_value i v)
  with assms show ?thesis
    using tidy_cong [OF set_input_frame(1,2)] by (auto simp: page_ok_def)
next
  case (Edit_not_field i v)
  with assms show ?thesis
    using tidy_cong [OF set_select_frame(1,2)] by (auto simp: page_ok_def)
next
  case (Change_operator v)
  with assms show ?thesis by (auto simp: page_ok_def)
qed

lemma run_ok: "page_ok d \<Longrightarrow> run evs d = Some d' \<Longrightarrow> page_ok d'"
proof (induction evs arbitrary: d)
  case Nil
  then show ?case by simp
next
  case (Cons ev evs)
  then show ?case
    by (auto split: if_splits sum.splits dest: fire_ok)
qed

lemma dec_0: "dec 0 = ''0''"
  by code_simp

lemma initial_ok: "initial d \<Longrightarrow> page_ok d"
proof -
  assume i: "initial d"
  then obtain q n where qn: "query_chunks d = [q]" "not_chunks d = [n]"
    by (auto simp: initial_def)
  with i have num: "numbered ''query_chunk_'' [0] (query_chunks d)"
    "numbered ''not_chunk_'' [0] (not_chunks d)"
    by (simp_all add: initial_def numbered_def dec_0)
  have marks: "marks_ok (query_chunks d)" "marks_ok (not_chunks d)"
    using i qn by (simp_all add: initial_def marks_ok_def)
  have "tidy ''query_chunk_'' (query_chunks d)"
    unfolding tidy_def using num(1) marks(1) qn(1)
    by (intro conjI exI [of _ "[0::nat]"]) simp_all
  moreover have "tidy ''not_chunk_'' (not_chunks d)"
    unfolding tidy_def using num(2) marks(2) qn(2)
    by (intro conjI exI [of _ "[0::nat]"]) simp_all
  ultimately show ?thesis by (simp add: page_ok_def)
qed

section \<open>Sequences of events\<close>


















lemma example_initial_initial: "initial example_initial"
  by (simp add: initial_def example_initial_def markup_row_def)








lemma marks_ok_enabled:
  assumes "chunks \<noteq> []" "marks_ok chunks"
  shows "list_ex removable chunks \<longleftrightarrow> 2 \<le> length chunks"
proof (cases "length chunks = 1")
  case True
  with assms show ?thesis by (simp add: marks_ok_def)
next
  case False
  with assms have "list_all removable chunks" "2 \<le> length chunks"
    by (cases chunks; simp add: marks_ok_def Suc_le_eq)+
  with assms(1) show ?thesis
    by (cases chunks) (auto simp: list_ex_iff list_all_iff)
qed

text \<open>
  C2 (as amended). The remove handlers have no guard of their own; what keeps a
  collection from becoming empty is the class \<^verbatim>\<open>removable\<close>. From the initial page,
  after every sequence of events whose removals are clicked while some row of the class is
  marked removable, both collections hold at least one row, and a remove trigger is
  available exactly when its collection holds two rows or more.
\<close>

theorem never_empty:
  assumes "initial d" and "run evs d = Some d'"
  shows "query_chunks d' \<noteq> [] \<and> not_chunks d' \<noteq> [] \<and>
    (enabled (Remove_query a) d' \<longleftrightarrow> 2 \<le> length (query_chunks d')) \<and>
    (enabled (Remove_not b) d' \<longleftrightarrow> 2 \<le> length (not_chunks d'))"
proof -
  have "page_ok d'"
    using run_ok [OF initial_ok [OF assms(1)] assms(2)] .
  then show ?thesis
    using marks_ok_enabled by (simp add: page_ok_def tidy_def)
qed

theorem never_empty_witness:
  "run [Add_not, Remove_not ''not_remove_0''] example_initial =
     Some (example_initial\<lparr>not_chunks := [markup_row ''not'' ''1'' False ''tag'' []]\<rparr>) \<and>
   not_chunks (example_initial\<lparr>not_chunks := [markup_row ''not'' ''1'' False ''tag'' []]\<rparr>) \<noteq> [] \<and>
   \<not> enabled (Remove_not ''not_remove_1'')
     (example_initial\<lparr>not_chunks := [markup_row ''not'' ''1'' False ''tag'' []]\<rparr>)"
proof -
  have r: "run [Add_not, Remove_not ''not_remove_0''] example_initial =
     Some (example_initial\<lparr>not_chunks := [markup_row ''not'' ''1'' False ''tag'' []]\<rparr>)"
    by code_simp
  from never_empty [OF example_initial_initial r, of "''remove_0''" "''not_remove_1''"]
  show ?thesis using r by simp
qed

text \<open>
  C2 as stated fails: the handler itself, run on a collection of one row with the number
  of that row, removes it.
\<close>

theorem remove_last_row_counterexample:
  "length (query_chunks example_initial) = 1 \<and>
   query_chunks (remove_btn_click ''remove_0'' example_initial) = []"
  by code_simp

section \<open>The appended row\<close>

lemma add_class_first_frame:
  "map select_val (add_class_first chunks) = map select_val chunks"
  "map input_val (add_class_first chunks) = map input_val chunks"
  by (cases chunks; simp add: add_class_first_def)+

lemma add_class_first_default:
  "map select_default (add_class_first chunks) = map select_default chunks"
  by (cases chunks; simp add: add_class_first_def)

lemma select_default_last_add_class_first:
  "chunks \<noteq> [] \<Longrightarrow>
   select_default (last (add_class_first chunks)) = select_default (last chunks)"
  by (metis add_class_first_default add_class_first_ids(3) last_map)

lemma dense_last:
  assumes "dense chunks" "chunks \<noteq> []"
  shows "chunk_index (last chunks) = Some (int (length chunks - 1))"
proof -
  have "chunk_index (last chunks) = last (indices chunks)"
    using assms(2) by (simp add: indices_def last_map)
  also have "\<dots> = last (map (\<lambda>i. Some (int i)) [0..<length chunks])"
    using assms(1) by (simp add: dense_def)
  also have "\<dots> = Some (int (length chunks - 1))"
    using assms(2) by (cases "length chunks") (simp_all add: last_map)
  finally show ?thesis .
qed

text \<open>
  C7 (as amended). For a collection whose last row has a well-formed id
  (\<^verbatim>\<open>query_chunk_\<close> or \<^verbatim>\<open>not_chunk_\<close> followed by a printed number \<open>n\<close> below
  \<open>2^53\<close>), an append does not throw and adds exactly one row after the rows there were
  (which keep their ids, fields and keywords): its keyword is empty, its field is the
  default option of the select of the row that was last (the clone does not carry the
  option the user selected, and the script sets only the input), and its number is
  \<open>n + 1\<close>, the number of the row that was last plus one. That is the length before the
  append when the numbers were \<open>0, ..., length - 1\<close>.
\<close>

theorem append_clones_last:
  assumes "pre = ''query_chunk_'' \<or> pre = ''not_chunk_''"
    and "chunks \<noteq> []"
    and "div_id (last chunks) = pre @ dec n"
    and "n < 2 ^ 53"
  shows "\<exists>new. add_part chunks = Inr (add_class_first chunks @ [new]) \<and>
      map div_id (add_class_first chunks) = map div_id chunks \<and>
      map select_val (add_class_first chunks) = map select_val chunks \<and>
      map input_val (add_class_first chunks) = map input_val chunks \<and>
      input_val new = [] \<and>
      select_val new = select_default (last chunks) \<and>
      select_default new = select_default (last chunks) \<and>
      div_id new = pre @ dec (n + 1) \<and>
      chunk_index new = Some (int n + 1) \<and>
      (dense chunks \<longrightarrow> chunk_index new = Some (int (length chunks)))"
proof -
  let ?new = "increment_ids ((clone (last (add_class_first chunks)))\<lparr>input_val := []\<rparr>)"
  have add: "add_part chunks = Inr (add_class_first chunks @ [?new])"
    using assms(2) by (simp add: add_part_Inr)
  have "div_id ((clone (last (add_class_first chunks)))\<lparr>input_val := []\<rparr>) = pre @ dec n"
    using assms(2,3) by (simp add: div_id_last_add_class_first)
  then have id: "div_id ?new = pre @ dec (Suc n)"
    by (rule div_id_increment_ids [OF assms(1)])
  then have idx: "chunk_index ?new = Some (int (Suc n))"
    by (rule chunk_index_dec [OF assms(1)])
  have sel: "select_val ?new = select_default (last chunks)"
    "select_default ?new = select_default (last chunks)"
    using assms(2) by (simp_all add: select_default_last_add_class_first)
  have "chunk_index ?new = Some (int (length chunks))" if "dense chunks"
  proof -
    have "chunk_index (last chunks) = Some (int n)"
      using assms(3) by (rule chunk_index_dec [OF assms(1)])
    then have "n = length chunks - 1"
      using dense_last [OF that assms(2)] by simp
    then have "Suc n = length chunks"
      using assms(2) by (cases chunks) simp_all
    then show ?thesis using idx by simp
  qed
  with add id idx sel show ?thesis
    by (intro exI [of _ ?new]) (simp add: add_class_first_frame)
qed

theorem append_clones_last_witness:
  "add_part (query_chunks example_cats) =
     Inr (query_chunks example_cats @ [markup_row ''query'' ''2'' True ''author'' []]) \<and>
   chunk_index (markup_row ''query'' ''2'' True ''author'' []) = Some 2 \<and>
   select_default (last (query_chunks example_cats)) = ''author''"
proof -
  have "div_id (last (query_chunks example_cats)) = ''query_chunk_'' @ dec 1"
    by code_simp
  moreover have "query_chunks example_cats \<noteq> []"
    by (simp add: example_cats_def)
  moreover have "(1::nat) < 2 ^ 53"
    by simp
  ultimately obtain new where new:
    "add_part (query_chunks example_cats) = Inr (add_class_first (query_chunks example_cats) @ [new])"
    "chunk_index new = Some (int 1 + 1)"
    "select_val new = select_default (last (query_chunks example_cats))"
    using append_clones_last [of "''query_chunk_''" "query_chunks example_cats" 1] by blast
  moreover have "add_part (query_chunks example_cats) =
     Inr (query_chunks example_cats @ [markup_row ''query'' ''2'' True ''author'' []])"
    by code_simp
  moreover have "select_val (markup_row ''query'' ''2'' True ''author'' []) = ''author''"
    by (simp add: markup_row_def)
  ultimately show ?thesis by simp
qed

text \<open>
  C7 as stated fails twice. On a collection with a gap the new number is not the length:
  after the rows 0 and 2 the appended row gets the number 3, not 2. And the new field is
  not the field of the last clause once the user has changed that field: on the page
  whose second include row was set to \<^verbatim>\<open>author\<close>, the appended row shows the default
  \<^verbatim>\<open>title\<close>.
\<close>

theorem append_after_gap_counterexample:
  "run [Add_query, Add_query, Remove_query ''remove_1''] example_initial = Some example_gap \<and>
   length (query_chunks example_gap) = 2 \<and>
   add_part (query_chunks example_gap) =
     Inr (query_chunks example_gap @ [markup_row ''query'' ''3'' True ''title'' []]) \<and>
   chunk_index (markup_row ''query'' ''3'' True ''title'' []) = Some 3 \<and>
   run [Edit_query_value 0 ''cats'', Add_query, Edit_query_field 1 ''author'',
        Edit_query_value 1 ''smith'', Edit_not_value 0 ''archived'', Change_operator ''OR'']
     example_initial = Some example_switched \<and>
   select_val (last (query_chunks example_switched)) = ''author'' \<and>
   add_part (query_chunks example_switched) =
     Inr (query_chunks example_switched @ [markup_row ''query'' ''2'' True ''title'' []]) \<and>
   select_val (markup_row ''query'' ''2'' True ''title'' []) = ''title''"
  by code_simp

section \<open>Removing a number that no row carries\<close>

lemma remove_div_absent:
  assumes "ident \<notin> set (row_ids d)"
  shows "remove_div ident d = d"
proof -
  have "filter (\<lambda>c. div_id c \<noteq> ident) (query_chunks d) = query_chunks d"
    "filter (\<lambda>c. div_id c \<noteq> ident) (not_chunks d) = not_chunks d"
    using assms by (auto simp: row_ids_def filter_id_conv)
  then show ?thesis by (simp add: remove_div_def)
qed

lemma remove_class_first_lone:
  "length chunks = 1 \<Longrightarrow> \<not> list_ex removable chunks \<Longrightarrow> remove_class_first chunks = chunks"
  by (cases chunks) (simp_all add: remove_class_first_def)

text \<open>
  C8 (as amended). When no row of the page carries the id made from the clicked anchor's
  index, and a lone row is not marked removable (as on every page reached from the
  initial one), the remove handlers delete nothing and throw nothing: the exclude handler
  leaves the whole page unchanged, and the include handler leaves the rows and the
  operator unchanged and recompiles the output field, so that the page is unchanged
  exactly when the output field was up to date.
\<close>

theorem remove_absent_index:
  assumes "''query_chunk_'' @ to_string (js_index (js_split CHR ''_'' a) 1) \<notin> set (row_ids d)"
    and "''not_chunk_'' @ to_string (js_index (js_split CHR ''_'' b) 2) \<notin> set (row_ids d)"
    and "length (query_chunks d) = 1 \<longrightarrow> \<not> list_ex removable (query_chunks d)"
    and "length (not_chunks d) = 1 \<longrightarrow> \<not> list_ex removable (not_chunks d)"
  shows "not_remove_btn_click b d = d \<and>
    remove_btn_click a d = build_query d \<and>
    (remove_btn_click a d = d \<longleftrightarrow> id_q d = id_q (build_query d))"
proof -
  have n: "not_remove_btn_click b d = d"
    using assms(2,4)
    by (simp add: not_remove_btn_click_def Let_def remove_div_absent remove_class_first_lone)
  have q: "remove_btn_click a d = build_query d"
    using assms(1,3)
    by (simp add: remove_btn_click_def Let_def remove_div_absent remove_class_first_lone)
  have "build_query d = d \<longleftrightarrow> id_q d = id_q (build_query d)"
  proof
    assume "build_query d = d"
    then show "id_q d = id_q (build_query d)" by simp
  next
    assume "id_q d = id_q (build_query d)"
    then have "d\<lparr>id_q := spec_compiled (include_part d) (exclude_part d)\<rparr> = d"
      by (simp add: build_query_eq)
    then show "build_query d = d" by (simp add: build_query_eq)
  qed
  with n q show ?thesis by simp
qed

theorem remove_absent_index_witness:
  "not_remove_btn_click ''not_remove_5'' example_cats = example_cats \<and>
   remove_btn_click ''remove_7'' example_cats = example_cats"
proof -
  have "''query_chunk_'' @ to_string (js_index (js_split CHR ''_'' ''remove_7'') 1)
      \<notin> set (row_ids example_cats)"
    "''not_chunk_'' @ to_string (js_index (js_split CHR ''_'' ''not_remove_5'') 2)
      \<notin> set (row_ids example_cats)"
    "length (query_chunks example_cats) = 1 \<longrightarrow> \<not> list_ex removable (query_chunks example_cats)"
    "length (not_chunks example_cats) = 1 \<longrightarrow> \<not> list_ex removable (not_chunks example_cats)"
    by code_simp+
  from remove_absent_index [OF this]
  have "not_remove_btn_click ''not_remove_5'' example_cats = example_cats"
    "remove_btn_click ''remove_7'' example_cats = example_cats \<longleftrightarrow>
      id_q example_cats = id_q (build_query example_cats)"
    by blast+
  moreover have "id_q example_cats = id_q (build_query example_cats)"
    by code_simp
  ultimately show ?thesis by simp
qed

text \<open>
  C8 as stated fails: after the operator was switched (no handler refreshes the output
  field then), a click on an include remove trigger whose index no row carries rewrites
  the output field.
\<close>

theorem remove_absent_index_counterexample:
  "run [Edit_query_value 0 ''cats'', Add_query, Edit_query_field 1 ''author'',
        Edit_query_value 1 ''smith'', Edit_not_value 0 ''archived'', Change_operator ''OR'']
     example_initial = Some example_switched \<and>
   ''query_chunk_7'' \<notin> set (row_ids example_switched) \<and>
   id_q example_switched = ''title:cats AND author:smith -tag:archived'' \<and>
   id_q (remove_btn_click ''remove_7'' example_switched)
     = ''title:cats OR author:smith -tag:archived''"
  by code_simp

section \<open>The output field after a removal of an exclusion\<close>

text \<open>
  C3 fails on the script: the handler of the exclude remove trigger does not call
  \<^verbatim>\<open>build_query\<close> (the handler of the include remove trigger does). With the
  exclusions \<open>archived\<close> and \<open>spam\<close> and the output field up to date, removing the second
  exclusion leaves the old text in the output field, while the compiler gives another.
\<close>

theorem not_remove_leaves_output_stale:
  "run [Edit_not_value 0 ''archived'', Add_not, Edit_not_value 1 ''spam''] example_initial
     = Some example_two_nots \<and>
   id_q example_two_nots = id_q (build_query example_two_nots) \<and>
   map input_val (not_chunks (not_remove_btn_click ''not_remove_1'' example_two_nots))
     = [''archived''] \<and>
   id_q (not_remove_btn_click ''not_remove_1'' example_two_nots) = ''-tag:archived -tag:spam'' \<and>
   id_q (build_query (not_remove_btn_click ''not_remove_1'' example_two_nots)) = ''-tag:archived''"
  by code_simp

section \<open>The handlers that recompile\<close>

lemma build_query_idem: "build_query (build_query d) = build_query d"
  by (simp add: build_query_eq)

text \<open>
  After an edit of a field or keyword control and after a click on an include remove
  trigger, the output field holds the compiler's text for the page as it then is.
\<close>

theorem output_up_to_date:
  "recompiles ev \<Longrightarrow> fire ev d = Inr d' \<Longrightarrow> id_q d' = id_q (build_query d')"
  by (cases ev) (auto simp: remove_btn_click_def Let_def build_query_idem)

theorem output_up_to_date_witness:
  "recompiles (Edit_not_value 0 ''archived'') \<and>
   fire (Edit_not_value 0 ''archived'') example_initial =
     Inr (example_initial\<lparr>not_chunks := [markup_row ''not'' ''0'' False ''tag'' ''archived''],
                          id_q := ''-tag:archived''\<rparr>) \<and>
   id_q (build_query (example_initial\<lparr>not_chunks :=
       [markup_row ''not'' ''0'' False ''tag'' ''archived''], id_q := ''-tag:archived''\<rparr>))
     = ''-tag:archived''"
proof -
  have r: "recompiles (Edit_not_value 0 ''archived'')" by simp
  have f: "fire (Edit_not_value 0 ''archived'') example_initial =
     Inr (example_initial\<lparr>not_chunks := [markup_row ''not'' ''0'' False ''tag'' ''archived''],
                          id_q := ''-tag:archived''\<rparr>)"
    by code_simp
  from output_up_to_date [OF r f] show ?thesis using r f by simp
qed

end
